theory Spec2Isabelle
  imports Main
begin

section \<open>Values of the run-time\<close>

text \<open>
  The module under study is the loader of the framework: loadSlashCommand, loadSlashSubcommand,
  loadUserCommand, loadMessageCommand, loadEvent, unloadEvent and unloadScript.
  User code (a definition's setup factory, its execute function, a script's cleanup function)
  is a computation over a state \<open>'u\<close> of its own that either returns or throws a value of
  type \<open>'e\<close>; what it did to the state before throwing stays done.  Whatever user code
  logs or does to the outside by itself is part of that state: the trace below records what
  the loader's code does, and awaited calls run to their end one after the other.
\<close>

type_synonym key = string

type_synonym ('u, 'e, 'a) js = "'u \<Rightarrow> ('e + 'a) \<times> 'u"

datatype js_error = TypeError

text \<open>What an invocation can be rejected with: an error of the engine, or what user code threw.\<close>

datatype 'e thrown = Engine js_error | User 'e

datatype 'e settled = Resolved | Rejected "'e thrown"

datatype level = Info | Warn | Error

text \<open>
  A logger is what the logger factory returned for a kind and a name, or a child of a logger
  carrying a request identifier.
\<close>

datatype logger = Pino string string | Child logger string

text \<open>
  What a log call is given: a message, a thrown value, or the record of a successful run
  (its message; the elapsed time read from the timer of the internals is left out).
\<close>

datatype 'e payload = Text string | Object 'e | Timed string

text \<open>The receiver of a raw handler: the empty object of the default factory, or what setup returned.\<close>

datatype 'd deps = EmptyObject | Deps 'd

text \<open>
  The observable actions of the loader's own code, in the order they happen: log calls, calls of
  user functions, and calls on the event source.  Functions are identified by a number, as the
  event source compares listeners by reference.
\<close>

datatype ('e, 'd) action =
    Log logger level "'e payload"
  | CallSetup
  | CallExecute "'d deps"
  | CallCleanup
  | CallOn string nat
  | CallOnce string nat
  | CallOff string nat

record ('u, 'e, 'd) world =
  user :: 'u
  trace :: "('e, 'd) action list"
  listeners :: "(string \<times> nat \<times> bool) list"
  next_fn :: nat

type_synonym ('u, 'e, 'd) setup_fn = "('u, 'e, 'd deps) js"

type_synonym ('u, 'e, 'd, 'c) raw_handler = "'d deps \<Rightarrow> 'c \<Rightarrow> ('u, 'e, unit) js"

type_synonym ('u, 'e, 'd, 'c) generic_handler =
  "'c \<Rightarrow> ('u, 'e, 'd) world \<Rightarrow> 'e settled \<times> ('u, 'e, 'd) world"

type_synonym logger_factory = "string \<Rightarrow> string \<Rightarrow> logger"

section \<open>Definitions the loader is given\<close>

text \<open>
  An option of a command as the loader reads it: name and type are always there; setup, execute,
  autocomplete and options are there or undefined, depending on the kind of option.
\<close>

datatype ('u, 'e, 'd, 'c) option_def =
  Opt (opt_name: string) (opt_type: string)
      (opt_setup: "('u, 'e, 'd) setup_fn option")
      (opt_execute: "('u, 'e, 'd, 'c) raw_handler option")
      (opt_autocomplete: "('u, 'e, 'd, 'c) raw_handler option")
      (opt_options: "('u, 'e, 'd, 'c) option_def list option")

record ('u, 'e, 'd, 'c) command =
  cmd_name :: string
  cmd_setup :: "('u, 'e, 'd) setup_fn option"
  cmd_execute :: "('u, 'e, 'd, 'c) raw_handler"

record ('u, 'e, 'd, 'c) slash_command = "('u, 'e, 'd, 'c) command" +
  cmd_options :: "('u, 'e, 'd, 'c) option_def list option"

record ('u, 'e, 'd, 'c) slash_subcommand =
  sub_name :: string
  sub_options :: "('u, 'e, 'd, 'c) option_def list"

record ('u, 'e, 'd, 'a) event =
  ev_name :: string
  ev_once :: bool
  ev_setup :: "('u, 'e, 'd) setup_fn option"
  ev_execute :: "'d deps \<Rightarrow> logger \<Rightarrow> 'a \<Rightarrow> ('u, 'e, unit) js"

record source_map =
  source :: string
  target :: string

section \<open>What the stores hold\<close>

record ('u, 'e, 'd, 'c) command_module =
  cm_execute :: "('u, 'e, 'd, 'c) generic_handler"
  cm_logger :: logger

type_synonym ('u, 'e, 'd, 'c) command_store = "key \<rightharpoonup> ('u, 'e, 'd, 'c) command_module"

text \<open>
  A listener is a function object: its identity, and what a call of it does given the
  identifier randomUUID returns in that call and the arguments of the emitted event.
\<close>

record ('u, 'e, 'd, 'a) listener =
  fn_id :: nat
  fn_call :: "string \<Rightarrow> 'a \<Rightarrow> ('u, 'e, 'd) world \<Rightarrow> 'e settled \<times> ('u, 'e, 'd) world"

record ('u, 'e, 'd, 'a) event_module =
  em_name :: string
  em_execute :: "('u, 'e, 'd, 'a) listener"
  em_logger :: logger

type_synonym ('u, 'e, 'd, 'a) event_store = "key \<rightharpoonup> ('u, 'e, 'd, 'a) event_module"

type_synonym ('u, 'e) script_store = "string \<rightharpoonup> ('u, 'e, unit) js"

section \<open>The internals and the event source\<close>

fun join :: "string \<Rightarrow> string list \<Rightarrow> string" where
  "join sep [] = []"
| "join sep [x] = x"
| "join sep (x # y # ys) = x @ sep @ join sep (y # ys)"

text \<open>
  Modelled from the spec: createKey of the internals module, which src/ does not hold.  The spec
  has it join its arguments (a kind tag and name segments) with a fixed separator; its example
  keys (cmd:p:g:s1) give the colon.
\<close>

definition createKey :: "string list \<Rightarrow> key" where
  "createKey segments = join '':'' segments"

text \<open>
  Modelled from the spec: getAutocompletes of the internals module, which src/ does not hold.
  The spec has one autocomplete entry for each option that declares an autocomplete handler;
  undefined options give none.
\<close>

definition getAutocompletes ::
  "('u, 'e, 'd, 'c) option_def list option \<Rightarrow> ('u, 'e, 'd, 'c) option_def list" where
  "getAutocompletes options =
     (case options of
        None \<Rightarrow> []
      | Some os \<Rightarrow> filter (\<lambda>opt. case opt_autocomplete opt of None \<Rightarrow> False | Some _ \<Rightarrow> True) os)"

definition traced :: "('e, 'd) action \<Rightarrow> ('u, 'e, 'd) world \<Rightarrow> ('u, 'e, 'd) world" where
  "traced a w = w\<lparr>trace := trace w @ [a]\<rparr>"

text \<open>
  The event source, as Node's emitter behaves: on and once append a listener for a name, off
  removes the most recently added instance of the function under that name, if there is one.
\<close>

fun remove_first :: "('a \<Rightarrow> bool) \<Rightarrow> 'a list \<Rightarrow> 'a list" where
  "remove_first p [] = []"
| "remove_first p (x # xs) = (if p x then xs else x # remove_first p xs)"

definition client_on :: "string \<Rightarrow> nat \<Rightarrow> ('u, 'e, 'd) world \<Rightarrow> ('u, 'e, 'd) world" where
  "client_on name f w = traced (CallOn name f) (w\<lparr>listeners := listeners w @ [(name, f, False)]\<rparr>)"

definition client_once :: "string \<Rightarrow> nat \<Rightarrow> ('u, 'e, 'd) world \<Rightarrow> ('u, 'e, 'd) world" where
  "client_once name f w = traced (CallOnce name f) (w\<lparr>listeners := listeners w @ [(name, f, True)]\<rparr>)"

definition client_off :: "string \<Rightarrow> nat \<Rightarrow> ('u, 'e, 'd) world \<Rightarrow> ('u, 'e, 'd) world" where
  "client_off name f w =
     traced (CallOff name f)
       (w\<lparr>listeners := rev (remove_first (\<lambda>(n, g, _). n = name \<and> g = f) (rev (listeners w)))\<rparr>)"

definition quoted :: "string \<Rightarrow> string" where
  "quoted s = [CHR 0x22] @ s @ [CHR 0x22]"

section \<open>Commands\<close>

definition default_setup :: "('u, 'e, 'd) setup_fn" where
  "default_setup u = (Inr EmptyObject, u)"

text \<open>
  The closure every command loader builds (the same text in loadAutocompletes, loadSlashCommand,
  loadSubcommand, loadSubcommandGroup, loadUserCommand and loadMessageCommand):
  \<^verbatim>\<open>async ctx => { const deps = await setup(); await execute.call(deps, ctx) }\<close>
  with setup the definition's factory or the default one.  It has no handler for exceptions.
  Calling an undefined execute is a TypeError of the engine.
\<close>

definition generic_handler ::
  "('u, 'e, 'd) setup_fn option \<Rightarrow> ('u, 'e, 'd, 'c) raw_handler option \<Rightarrow> ('u, 'e, 'd, 'c) generic_handler" where
  "generic_handler setup_opt execute_opt ctx w =
     (let setup_fn = (case setup_opt of None \<Rightarrow> default_setup | Some f \<Rightarrow> f);
          w1 = traced CallSetup w
      in case setup_fn (user w1) of
           (Inl e, u1) \<Rightarrow> (Rejected (User e), w1\<lparr>user := u1\<rparr>)
         | (Inr deps, u1) \<Rightarrow>
             (case execute_opt of
                None \<Rightarrow> (Rejected (Engine TypeError), w1\<lparr>user := u1\<rparr>)
              | Some f \<Rightarrow>
                  (let w2 = traced (CallExecute deps) (w1\<lparr>user := u1\<rparr>)
                   in case f deps ctx (user w2) of
                        (Inl e, u2) \<Rightarrow> (Rejected (User e), w2\<lparr>user := u2\<rparr>)
                      | (Inr _, u2) \<Rightarrow> (Resolved, w2\<lparr>user := u2\<rparr>))))"

definition loadAutocompletes ::
  "('u, 'e, 'd, 'c) command_store \<Rightarrow> string \<Rightarrow> logger_factory \<Rightarrow>
   ('u, 'e, 'd, 'c) option_def list option \<Rightarrow> ('u, 'e, 'd, 'c) command_store" where
  "loadAutocompletes store parentKey pino options =
     foldl (\<lambda>st opt.
              let key = createKey [''auto'', parentKey, opt_name opt]
              in st(key \<mapsto> \<lparr>cm_execute = generic_handler (opt_setup opt) (opt_autocomplete opt),
                             cm_logger = pino ''autocomplete'' key\<rparr>))
       store (getAutocompletes options)"

definition loadSlashCommand ::
  "('u, 'e, 'd, 'c) command_store \<Rightarrow> logger_factory \<Rightarrow> ('u, 'e, 'd, 'c) slash_command \<Rightarrow>
   ('u, 'e, 'd, 'c) command_store" where
  "loadSlashCommand store pino command =
     (let parentKey = createKey [cmd_name command];
          key = createKey [''cmd'', parentKey]
      in loadAutocompletes
           (store(key \<mapsto> \<lparr>cm_execute = generic_handler (cmd_setup command) (Some (cmd_execute command)),
                            cm_logger = pino ''command'' key\<rparr>))
           parentKey pino (cmd_options command))"

definition loadSubcommand ::
  "('u, 'e, 'd, 'c) command_store \<Rightarrow> string \<Rightarrow> logger_factory \<Rightarrow> ('u, 'e, 'd, 'c) option_def \<Rightarrow>
   ('u, 'e, 'd, 'c) command_store" where
  "loadSubcommand store parentName pino subcommand =
     (let parentKey = createKey [parentName, opt_name subcommand];
          key = createKey [''cmd'', parentKey]
      in loadAutocompletes
           (store(key \<mapsto> \<lparr>cm_execute = generic_handler (opt_setup subcommand) (opt_execute subcommand),
                            cm_logger = pino ''subcommand'' key\<rparr>))
           parentKey pino (opt_options subcommand))"

text \<open>Iterating over undefined options is a TypeError; the store keeps what was set before.\<close>

definition loadSubcommandGroup ::
  "('u, 'e, 'd, 'c) command_store \<Rightarrow> string \<Rightarrow> logger_factory \<Rightarrow> ('u, 'e, 'd, 'c) option_def \<Rightarrow>
   js_error option \<times> ('u, 'e, 'd, 'c) command_store" where
  "loadSubcommandGroup store parentName pino grp =
     (case opt_options grp of
        None \<Rightarrow> (Some TypeError, store)
      | Some subcommands \<Rightarrow>
          (None,
           foldl (\<lambda>st subcommand.
                    let parentKey = createKey [parentName, opt_name grp, opt_name subcommand];
                        key = createKey [''cmd'', parentKey]
                    in loadAutocompletes
                         (st(key \<mapsto> \<lparr>cm_execute = generic_handler (opt_setup subcommand) (opt_execute subcommand),
                                        cm_logger = pino ''subcommand'' key\<rparr>))
                         parentKey pino (opt_options subcommand))
             store subcommands))"

text \<open>The loop of loadSlashSubcommand over the command's options; an exception ends it.\<close>

fun loadSlashSubcommand_options ::
  "('u, 'e, 'd, 'c) command_store \<Rightarrow> logger_factory \<Rightarrow> string \<Rightarrow> ('u, 'e, 'd, 'c) option_def list \<Rightarrow>
   js_error option \<times> ('u, 'e, 'd, 'c) command_store" where
  "loadSlashSubcommand_options store pino name [] = (None, store)"
| "loadSlashSubcommand_options store pino name (opt # rest) =
     (if opt_type opt = ''SUB_COMMAND''
      then loadSlashSubcommand_options (loadSubcommand store name pino opt) pino name rest
      else if opt_type opt = ''SUB_COMMAND_GROUP''
      then (case loadSubcommandGroup store name pino opt of
              (Some err, store') \<Rightarrow> (Some err, store')
            | (None, store') \<Rightarrow> loadSlashSubcommand_options store' pino name rest)
      else loadSlashSubcommand_options store pino name rest)"

definition loadSlashSubcommand ::
  "('u, 'e, 'd, 'c) command_store \<Rightarrow> logger_factory \<Rightarrow> ('u, 'e, 'd, 'c) slash_subcommand \<Rightarrow>
   js_error option \<times> ('u, 'e, 'd, 'c) command_store" where
  "loadSlashSubcommand store pino command =
     loadSlashSubcommand_options store pino (sub_name command) (sub_options command)"

definition loadUserCommand ::
  "('u, 'e, 'd, 'c) command_store \<Rightarrow> logger_factory \<Rightarrow> ('u, 'e, 'd, 'c) command \<Rightarrow>
   ('u, 'e, 'd, 'c) command_store" where
  "loadUserCommand store pino command =
     (let key = createKey [''usr'', cmd_name command]
      in store(key \<mapsto> \<lparr>cm_execute = generic_handler (cmd_setup command) (Some (cmd_execute command)),
                        cm_logger = pino ''user'' key\<rparr>))"

definition loadMessageCommand ::
  "('u, 'e, 'd, 'c) command_store \<Rightarrow> logger_factory \<Rightarrow> ('u, 'e, 'd, 'c) command \<Rightarrow>
   ('u, 'e, 'd, 'c) command_store" where
  "loadMessageCommand store pino command =
     (let key = createKey [''msg'', cmd_name command]
      in store(key \<mapsto> \<lparr>cm_execute = generic_handler (cmd_setup command) (Some (cmd_execute command)),
                        cm_logger = pino ''message'' key\<rparr>))"

section \<open>Events\<close>

definition logged ::
  "logger \<Rightarrow> level \<Rightarrow> 'e payload \<Rightarrow> ('u, 'e, 'd) world \<Rightarrow> ('u, 'e, 'd) world" where
  "logged lg lvl p w = traced (Log lg lvl p) w"

text \<open>The catch block of the listener: one entry on the event's logger, two on the scoped one.\<close>

definition event_catch ::
  "string \<Rightarrow> logger \<Rightarrow> logger \<Rightarrow> 'e \<Rightarrow> ('u, 'e, 'd) world \<Rightarrow> ('u, 'e, 'd) world" where
  "event_catch name root_logger scoped error w =
     logged scoped Error (Object error)
       (logged scoped Error (Text ''An unexpected error has occured!'')
          (logged root_logger Info
             (Text (''Handler for '' @ quoted name @ '' did not run successfully.'')) w))"

text \<open>
  The listener loadEvent builds.  reqId is what randomUUID returns in this call; it is drawn
  before the try block, and the whole rest of the body is inside it.
\<close>

definition event_execute ::
  "('u, 'e, 'd, 'a) event \<Rightarrow> logger \<Rightarrow> string \<Rightarrow> 'a \<Rightarrow> ('u, 'e, 'd) world \<Rightarrow>
   'e settled \<times> ('u, 'e, 'd) world" where
  "event_execute event root_logger reqId args w =
     (let setup_fn = (case ev_setup event of None \<Rightarrow> default_setup | Some f \<Rightarrow> f);
          scoped = Child root_logger reqId;
          w1 = traced CallSetup w
      in case setup_fn (user w1) of
           (Inl e, u1) \<Rightarrow> (Resolved, event_catch (ev_name event) root_logger scoped e (w1\<lparr>user := u1\<rparr>))
         | (Inr deps, u1) \<Rightarrow>
             (let w2 = logged scoped Info
                         (Text (''Running handler for '' @ quoted (ev_name event) @ ''...''))
                         (w1\<lparr>user := u1\<rparr>);
                  w3 = traced (CallExecute deps) w2
              in case ev_execute event deps scoped args (user w3) of
                   (Inl e, u2) \<Rightarrow>
                     (Resolved, event_catch (ev_name event) root_logger scoped e (w3\<lparr>user := u2\<rparr>))
                 | (Inr _, u2) \<Rightarrow>
                     (Resolved,
                      logged scoped Info
                        (Timed (''Successfully ran handler for '' @ quoted (ev_name event) @ ''.''))
                        (w3\<lparr>user := u2\<rparr>))))"

definition unloadEvent ::
  "('u, 'e, 'd, 'a) event_store \<Rightarrow> key \<Rightarrow> logger option \<Rightarrow> ('u, 'e, 'd) world \<Rightarrow>
   ('u, 'e, 'd, 'a) event_store \<times> ('u, 'e, 'd) world" where
  "unloadEvent store key logger_opt w =
     (case store key of
        None \<Rightarrow>
          (store,
           case logger_opt of
             None \<Rightarrow> w
           | Some lg \<Rightarrow> logged lg Warn (Text ''Tried to unload an event that wasn't saved!'') w)
      | Some event \<Rightarrow>
          (let w1 = client_off (em_name event) (fn_id (em_execute event)) w
           in (store,
               case logger_opt of
                 None \<Rightarrow> w1
               | Some lg \<Rightarrow>
                   logged lg Info (Text (''Unloaded '' @ quoted (em_name event) @ '' listener!'')) w1)))"

text \<open>
  loadEvent returns normally (None) or throws.  The entry it reads when the key is taken is the
  one stored under the event's name, and reading the execute field of undefined is a TypeError:
  then the store and the event source are as they were.
\<close>

definition loadEvent ::
  "('u, 'e, 'd, 'a) event_store \<Rightarrow> key \<Rightarrow> logger_factory \<Rightarrow> ('u, 'e, 'd, 'a) event \<Rightarrow>
   ('u, 'e, 'd) world \<Rightarrow> js_error option \<times> ('u, 'e, 'd, 'a) event_store \<times> ('u, 'e, 'd) world" where
  "loadEvent store key pino event w =
     (let name = ev_name event;
          root_logger = pino ''event'' name;
          execute = \<lparr>fn_id = next_fn w, fn_call = event_execute event root_logger\<rparr>;
          w0 = w\<lparr>next_fn := Suc (next_fn w)\<rparr>;
          attach = (\<lambda>w'. (None,
                          store(key \<mapsto> \<lparr>em_name = name, em_execute = execute, em_logger = root_logger\<rparr>),
                          (if ev_once event then client_once else client_on) name (fn_id execute) w'))
      in if store key \<noteq> None
         then (case store name of
                 None \<Rightarrow> (Some TypeError, store, w0)
               | Some oldListener \<Rightarrow> attach (client_off key (fn_id (em_execute oldListener)) w0))
         else attach w0)"

section \<open>Scripts\<close>

text \<open>
  unloadScript is asynchronous: its result is how its promise settles.  relative is Node's
  path.relative, a parameter here.
\<close>

definition unloadScript ::
  "('u, 'e) script_store \<Rightarrow> logger \<Rightarrow> (string \<Rightarrow> string \<Rightarrow> string) \<Rightarrow> string \<Rightarrow> source_map \<Rightarrow>
   ('u, 'e, 'd) world \<Rightarrow> 'e settled \<times> ('u, 'e) script_store \<times> ('u, 'e, 'd) world" where
  "unloadScript store lg relative root file w =
     (let relpath = relative root (source file)
      in case store relpath of
           None \<Rightarrow> (Resolved, store, w)
         | Some cleanup \<Rightarrow>
             (let w1 = traced CallCleanup w
              in case cleanup (user w1) of
                   (Inr _, u1) \<Rightarrow> (Resolved, store, w1\<lparr>user := u1\<rparr>)
                 | (Inl error, u1) \<Rightarrow>
                     (Resolved, store,
                      logged lg Error (Object error)
                        (logged lg Error
                           (Text (''Cleanup function at '' @ relpath @ '' threw an error!''))
                           (w1\<lparr>user := u1\<rparr>)))))"

section \<open>Reading a trace\<close>

definition count_level :: "level \<Rightarrow> ('e, 'd) action list \<Rightarrow> nat" where
  "count_level lvl tr = length (filter (\<lambda>a. case a of Log _ l _ \<Rightarrow> l = lvl | _ \<Rightarrow> False) tr)"

definition setup_calls :: "('e, 'd) action list \<Rightarrow> nat" where
  "setup_calls tr = length (filter (\<lambda>a. case a of CallSetup \<Rightarrow> True | _ \<Rightarrow> False) tr)"

definition deps_seen :: "('e, 'd) action list \<Rightarrow> 'd deps list" where
  "deps_seen tr = concat (map (\<lambda>a. case a of CallExecute d \<Rightarrow> [d] | _ \<Rightarrow> []) tr)"

text \<open>Invocations of one compiled handler, one after the other.\<close>

fun invoke_all ::
  "('c \<Rightarrow> 'w \<Rightarrow> 'r \<times> 'w) \<Rightarrow> 'c list \<Rightarrow> 'w \<Rightarrow> 'r list \<times> 'w" where
  "invoke_all h [] w = ([], w)"
| "invoke_all h (c # cs) w =
     (case h c w of (r, w') \<Rightarrow> (case invoke_all h cs w' of (rs, w'') \<Rightarrow> (r # rs, w'')))"

section \<open>Scenarios\<close>

text \<open>Concrete inputs for the closed theorems below: a world where nothing has happened yet.\<close>

definition world0 :: "(unit, string, nat) world" where
  "world0 = \<lparr>user = (), trace = [], listeners = [], next_fn = 0\<rparr>"

text \<open>What path.relative gives for a path that lies below the root.\<close>

definition below_root :: "string \<Rightarrow> string \<Rightarrow> string" where
  "below_root root path = drop (length root + 1) path"

definition failing_cleanup :: "(unit, string, unit) js" where
  "failing_cleanup u = (Inl ''boom'', u)"

definition ready_event :: "(unit, string, nat, unit) event" where
  "ready_event = \<lparr>ev_name = ''ready'', ev_once = False, ev_setup = None,
                  ev_execute = (\<lambda>deps lg args u. (Inr (), u))\<rparr>"

definition ready_module :: "(unit, string, nat, unit) event_module" where
  "ready_module =
     \<lparr>em_name = ''ready'',
      em_execute = \<lparr>fn_id = 0, fn_call = event_execute ready_event (Pino ''event'' ''ready'')\<rparr>,
      em_logger = Pino ''event'' ''ready''\<rparr>"

definition listening0 :: "(unit, string, nat) world" where
  "listening0 = \<lparr>user = (), trace = [], listeners = [(''ready'', 0, False)], next_fn = 1\<rparr>"

definition throwing_command :: "(unit, string, nat, unit) slash_command" where
  "throwing_command =
     \<lparr>cmd_name = ''p'', cmd_setup = None,
      cmd_execute = (\<lambda>deps ctx u. (Inl ''boom'', u)), cmd_options = None\<rparr>"

definition failing_setup_command :: "(unit, string, nat, unit) command" where
  "failing_setup_command =
     \<lparr>cmd_name = ''who'', cmd_setup = Some (\<lambda>u. (Inl ''no database'', u)),
      cmd_execute = (\<lambda>deps ctx u. (Inr (), u))\<rparr>"

definition throwing_event :: "(unit, string, nat, unit) event" where
  "throwing_event = \<lparr>ev_name = ''ready'', ev_once = False, ev_setup = None,
                     ev_execute = (\<lambda>deps lg args u. (Inl ''boom'', u))\<rparr>"

definition failing_setup_event :: "(unit, string, nat, unit) event" where
  "failing_setup_event = \<lparr>ev_name = ''ready'', ev_once = False,
                          ev_setup = Some (\<lambda>u. (Inl ''no database'', u)),
                          ev_execute = (\<lambda>deps lg args u. (Inr (), u))\<rparr>"

text \<open>
  The factory of the spec's test: it returns a strictly incrementing counter.  The counter is
  the first component of the user state; beside_counter lifts a computation that does not touch
  it.
\<close>

definition counting_setup :: "(nat \<times> 'v, 'e, nat) setup_fn" where
  "counting_setup = (\<lambda>(n, v). (Inr (Deps n), (Suc n, v)))"

definition beside_counter :: "('v, 'e, 'a) js \<Rightarrow> (nat \<times> 'v, 'e, 'a) js" where
  "beside_counter f = (\<lambda>(n, v). case f v of (r, v') \<Rightarrow> (r, (n, v')))"

definition counter_world :: "(nat \<times> unit, string, nat) world" where
  "counter_world = \<lparr>user = (0, ()), trace = [], listeners = [], next_fn = 0\<rparr>"

text \<open>Every entry of a command store is an envelope built by generic_handler.\<close>

definition envelopes :: "('u, 'e, 'd, 'c) command_store \<Rightarrow> bool" where
  "envelopes store = (\<forall>k m. store k = Some m \<longrightarrow> (\<exists>su ex. cm_execute m = generic_handler su ex))"

section \<open>Keys\<close>

lemma sep_split:
  "c \<notin> set x \<Longrightarrow> c \<notin> set y \<Longrightarrow> x @ c # r = y @ c # r' \<Longrightarrow> x = y \<and> r = r'"
proof (induction x arbitrary: y)
  case Nil
  then show ?case by (cases y) auto
next
  case (Cons a x)
  then show ?case by (cases y) auto
qed

lemma join_inj:
  "xs \<noteq> [] \<Longrightarrow> ys \<noteq> [] \<Longrightarrow> \<forall>s\<in>set xs. c \<notin> set s \<Longrightarrow> \<forall>s\<in>set ys. c \<notin> set s \<Longrightarrow>
   join [c] xs = join [c] ys \<Longrightarrow> xs = ys"
proof (induction xs arbitrary: ys)
  case Nil
  then show ?case by simp
next
  case (Cons x xs)
  obtain y ys' where ys: "ys = y # ys'" using Cons.prems(2) by (cases ys) auto
  show ?case
  proof (cases xs)
    case xnil: Nil
    show ?thesis
    proof (cases ys')
      case Nil
      with xnil ys Cons.prems show ?thesis by simp
    next
      case (Cons y' ys'')
      with xnil ys Cons.prems have "x = y @ c # join [c] (y' # ys'')" by simp
      moreover have "c \<notin> set x" using Cons.prems by simp
      ultimately show ?thesis by (metis in_set_conv_decomp)
    qed
  next
    case xcons: (Cons x' xs')
    show ?thesis
    proof (cases ys')
      case Nil
      with xcons ys Cons.prems have "y = x @ c # join [c] (x' # xs')" by simp
      moreover have "c \<notin> set y" using Cons.prems ys by simp
      ultimately show ?thesis by (metis in_set_conv_decomp)
    next
      case ycons: (Cons y' ys'')
      from xcons ycons ys Cons.prems
      have eq: "x @ c # join [c] (x' # xs') = y @ c # join [c] (y' # ys'')" by simp
      have "c \<notin> set x" "c \<notin> set y" using Cons.prems ys by simp_all
      from sep_split[OF this eq] have xy: "x = y" and r: "join [c] xs = join [c] ys'"
        using xcons ycons by simp_all
      have "xs = ys'"
        using Cons.IH[of ys'] r xcons ycons Cons.prems ys by simp
      with xy ys show ?thesis by simp
    qed
  qed
qed

text \<open>
  C8, as the join has it.  The key-building function is deterministic, and injective over the
  tuples whose kind tag and segments do not hold the separator (the spec joins segments with a
  character disallowed inside a segment): two such tuples give the same key exactly when the
  kind tags are equal and the segment lists are equal.  Segments need not be non-empty for
  this.
\<close>

theorem createKey_injective:
  assumes "\<forall>s\<in>set (kind # segments). CHR '':'' \<notin> set s"
    and "\<forall>s\<in>set (kind' # segments'). CHR '':'' \<notin> set s"
  shows "createKey (kind # segments) = createKey (kind' # segments') \<longleftrightarrow>
         kind = kind' \<and> segments = segments'"
proof
  assume "createKey (kind # segments) = createKey (kind' # segments')"
  then have "join [CHR '':''] (kind # segments) = join [CHR '':''] (kind' # segments')"
    by (simp add: createKey_def)
  with assms have "kind # segments = kind' # segments'"
    by (intro join_inj) simp_all
  then show "kind = kind' \<and> segments = segments'" by simp
next
  assume "kind = kind' \<and> segments = segments'"
  then show "createKey (kind # segments) = createKey (kind' # segments')" by simp
qed

theorem createKey_injective_witness:
  "list_all (\<lambda>s. CHR '':'' \<notin> set s) [''cmd'', ''p'', ''g''] \<and>
   list_all (\<lambda>s. CHR '':'' \<notin> set s) [''cmd'', ''p'', ''g'', ''s1''] \<and>
   createKey [''cmd'', ''p'', ''g''] \<noteq> createKey [''cmd'', ''p'', ''g'', ''s1''] \<and>
   createKey [''cmd'', ''p'', ''g''] = ''cmd:p:g''"
proof -
  have a: "\<forall>s\<in>set (''cmd'' # [''p'', ''g'']). CHR '':'' \<notin> set s" by simp
  have b: "\<forall>s\<in>set (''cmd'' # [''p'', ''g'', ''s1'']). CHR '':'' \<notin> set s" by simp
  from createKey_injective[OF a b]
  have "createKey [''cmd'', ''p'', ''g''] \<noteq> createKey [''cmd'', ''p'', ''g'', ''s1'']" by simp
  then show ?thesis by (simp add: createKey_def)
qed

text \<open>
  The claim C8 as written asks only for non-empty segments, and then fails: a segment that holds
  the separator, as the parent key p:g that loadSubcommand hands to createKey does, gives the
  key of the two segments p and g.
\<close>

theorem createKey_collision:
  "createKey (''cmd'' # [''p:g'']) = createKey (''cmd'' # [''p'', ''g'']) \<and>
   (''cmd'', [''p:g'']) \<noteq> (''cmd'', [''p'', ''g'']) \<and>
   list_all (\<lambda>s. s \<noteq> []) [''p:g''] \<and> list_all (\<lambda>s. s \<noteq> []) [''p'', ''g''] \<and>
   createKey [''p'', ''g''] = ''p:g''"
  by (simp add: createKey_def)

section \<open>Compiling subcommands\<close>

lemma createKey_auto: "createKey [''auto'', pk, n] = ''auto:'' @ pk @ '':'' @ n"
  by (simp add: createKey_def)

lemma loadAutocompletes_other_keys:
  assumes "hd k \<noteq> CHR ''a''"
  shows "loadAutocompletes store pk pino options k = store k"
proof -
  have "foldl (\<lambda>st opt. let key = createKey [''auto'', pk, opt_name opt]
                        in st(key \<mapsto> F opt key)) st0 os k = st0 k" for F os and st0 :: "key \<rightharpoonup> 'z"
  proof (induction os arbitrary: st0)
    case Nil
    show ?case by simp
  next
    case (Cons opt os)
    have "k \<noteq> createKey [''auto'', pk, opt_name opt]"
      using assms by (auto simp: createKey_auto)
    with Cons show ?case by (simp add: Let_def)
  qed
  then show ?thesis unfolding loadAutocompletes_def .
qed

text \<open>
  C3.  For the slash command named p whose options are the subcommand group g holding the one
  subcommand s1, loadSlashSubcommand returns normally, sets the entry at cmd:p:g:s1 (the
  envelope of s1's setup and execute), and leaves the keys cmd:p:g and cmd:p as they were in
  the store: it registers nothing there.  This holds whatever else the group and the subcommand
  carry (setup, execute, autocomplete, options of s1) and whatever the store held before.
\<close>

theorem subcommand_group_keys:
  "(case loadSlashSubcommand store pino
           \<lparr>sub_name = ''p'',
            sub_options = [Opt ''g'' ''SUB_COMMAND_GROUP'' gsetup gexecute gauto
                             (Some [Opt ''s1'' ''SUB_COMMAND'' ssetup sexecute sauto soptions])]\<rparr> of
      (thrown, store') \<Rightarrow>
        thrown = None \<and>
        store' ''cmd:p:g:s1'' =
          Some \<lparr>cm_execute = generic_handler ssetup sexecute, cm_logger = pino ''subcommand'' ''cmd:p:g:s1''\<rparr> \<and>
        store' ''cmd:p:g'' = store ''cmd:p:g'' \<and>
        store' ''cmd:p'' = store ''cmd:p'')"
  by (simp add: loadSlashSubcommand_def loadSubcommandGroup_def Let_def
      loadAutocompletes_other_keys createKey_def)

text \<open>
  C10.  loadSlashSubcommand passes over every option whose type is neither SUB_COMMAND nor
  SUB_COMMAND_GROUP: its result (the exception, if any, and the store) is the result for the
  command without those options, so such an option adds no entry and raises nothing; a command
  with only such options leaves the store as it was and returns normally.
\<close>

theorem loadSlashSubcommand_skips_other_options:
  "loadSlashSubcommand store pino command =
     loadSlashSubcommand store pino
       (command\<lparr>sub_options :=
          filter (\<lambda>opt. opt_type opt = ''SUB_COMMAND'' \<or> opt_type opt = ''SUB_COMMAND_GROUP'')
            (sub_options command)\<rparr>) \<and>
   ((\<forall>opt\<in>set (sub_options command).
        opt_type opt \<noteq> ''SUB_COMMAND'' \<and> opt_type opt \<noteq> ''SUB_COMMAND_GROUP'') \<longrightarrow>
    loadSlashSubcommand store pino command = (None, store))"
proof -
  have skip: "loadSlashSubcommand_options st pino name os =
      loadSlashSubcommand_options st pino name
        (filter (\<lambda>opt. opt_type opt = ''SUB_COMMAND'' \<or> opt_type opt = ''SUB_COMMAND_GROUP'') os)"
    for st name os
  proof (induction os arbitrary: st)
    case Nil
    show ?case by simp
  next
    case (Cons opt os)
    show ?case
      using Cons.IH by (simp split: prod.split option.split)
  qed
  have none: "loadSlashSubcommand_options st pino name os = (None, st)"
    if "\<forall>opt\<in>set os. opt_type opt \<noteq> ''SUB_COMMAND'' \<and> opt_type opt \<noteq> ''SUB_COMMAND_GROUP''"
    for st name os
    using that by (induction os) simp_all
  show ?thesis
    using skip[of store "sub_name command" "sub_options command"]
      none[of "sub_options command" store "sub_name command"]
    by (simp add: loadSlashSubcommand_def)
qed

theorem loadSlashSubcommand_skips_other_options_witness:
  "list_all (\<lambda>opt. opt_type opt \<noteq> ''SUB_COMMAND'' \<and> opt_type opt \<noteq> ''SUB_COMMAND_GROUP'')
     [Opt ''query'' ''STRING'' None None None None, Opt ''count'' ''INTEGER'' None None None None] \<and>
   loadSlashSubcommand (Map.empty :: (unit, string, nat, unit) command_store) Pino
     \<lparr>sub_name = ''p'',
      sub_options = [Opt ''query'' ''STRING'' None None None None,
                     Opt ''count'' ''INTEGER'' None None None None]\<rparr> = (None, Map.empty)"
  using loadSlashSubcommand_skips_other_options
    [of "Map.empty :: (unit, string, nat, unit) command_store" Pino
        "\<lparr>sub_name = ''p'',
          sub_options = [Opt ''query'' ''STRING'' None None None None,
                         Opt ''count'' ''INTEGER'' None None None None]\<rparr>"]
  by (simp add: loadSlashSubcommand_def)

section \<open>Unloading\<close>

lemma count_level_append:
  "count_level lvl (xs @ ys) = count_level lvl xs + count_level lvl ys"
  by (simp add: count_level_def)

text \<open>
  C9.  unloadEvent never removes an entry: the store it leaves is the store it was given, on
  every call.  For a registered key, each call detaches the stored listener (a call of off
  with the stored name and function) and, when it has a logger, logs the information entry;
  a second call on the same key does the same again, and no warning is logged.
\<close>

theorem unloadEvent_keeps_store:
  "fst (unloadEvent store key lg w) = store \<and>
   (\<forall>ev. store key = Some ev \<longrightarrow>
      (let off = CallOff (em_name ev) (fn_id (em_execute ev));
           said = (case lg of
                     None \<Rightarrow> []
                   | Some l \<Rightarrow> [Log l Info (Text (''Unloaded '' @ quoted (em_name ev) @ '' listener!''))]);
           w1 = snd (unloadEvent store key lg w);
           w2 = snd (unloadEvent (fst (unloadEvent store key lg w)) key lg w1)
       in trace w1 = trace w @ off # said \<and> trace w2 = trace w1 @ off # said \<and>
          count_level Warn (trace w2) = count_level Warn (trace w)))"
proof -
  have frame: "fst (unloadEvent store key lg w') = store" for w'
    by (simp add: unloadEvent_def Let_def split: option.split)
  have step: "trace (snd (unloadEvent store key lg w')) =
      trace w' @ CallOff (em_name ev) (fn_id (em_execute ev)) #
        (case lg of None \<Rightarrow> []
         | Some l \<Rightarrow> [Log l Info (Text (''Unloaded '' @ quoted (em_name ev) @ '' listener!''))])"
    if "store key = Some ev" for ev w'
    using that
    by (simp add: unloadEvent_def Let_def client_off_def logged_def traced_def split: option.split)
  show ?thesis
    by (auto simp: frame step Let_def count_level_append count_level_def split: option.split)
qed

theorem unloadEvent_keeps_store_witness:
  "[''ready'' \<mapsto> ready_module] ''ready'' = Some ready_module \<and>
   fst (unloadEvent [''ready'' \<mapsto> ready_module] ''ready'' None listening0) ''ready'' = Some ready_module \<and>
   trace (snd (unloadEvent [''ready'' \<mapsto> ready_module] ''ready'' None
            (snd (unloadEvent [''ready'' \<mapsto> ready_module] ''ready'' None listening0)))) =
     [CallOff ''ready'' 0, CallOff ''ready'' 0]"
proof -
  have h: "[''ready'' \<mapsto> ready_module] ''ready'' = Some ready_module" by simp
  have n: "em_name ready_module = ''ready''" "fn_id (em_execute ready_module) = 0"
    by (simp_all add: ready_module_def)
  have l: "trace listening0 = []" by (simp add: listening0_def)
  note t = unloadEvent_keeps_store [of "[''ready'' \<mapsto> ready_module]" "''ready''" None listening0]
  from t have frame: "fst (unloadEvent [''ready'' \<mapsto> ready_module] ''ready'' None listening0) =
      [''ready'' \<mapsto> ready_module]"
    by (rule conjunct1)
  from t have "\<forall>ev. [''ready'' \<mapsto> ready_module] ''ready'' = Some ev \<longrightarrow>
      (let off = CallOff (em_name ev) (fn_id (em_execute ev));
           said = (case None of
                     None \<Rightarrow> []
                   | Some l \<Rightarrow> [Log l Info (Text (''Unloaded '' @ quoted (em_name ev) @ '' listener!''))]);
           w1 = snd (unloadEvent [''ready'' \<mapsto> ready_module] ''ready'' None listening0);
           w2 = snd (unloadEvent (fst (unloadEvent [''ready'' \<mapsto> ready_module] ''ready'' None listening0)) ''ready'' None w1)
       in trace w1 = trace listening0 @ off # said \<and> trace w2 = trace w1 @ off # said \<and>
          count_level Warn (trace w2) = count_level Warn (trace listening0))"
    by (rule conjunct2)
  from this[rule_format, OF h] have
    "trace (snd (unloadEvent [''ready'' \<mapsto> ready_module] ''ready'' None
       (snd (unloadEvent [''ready'' \<mapsto> ready_module] ''ready'' None listening0)))) =
     [CallOff ''ready'' 0, CallOff ''ready'' 0]"
    unfolding frame Let_def n l by simp
  with frame h show ?thesis by simp
qed

text \<open>
  C7, as the code has it.  For a key with no stored entry neither function throws, detaches or
  calls a cleanup.  unloadEvent logs exactly one warning when it was given a logger and
  nothing when it was not; unloadScript returns at once and logs nothing.
\<close>

theorem unload_missing_entry:
  "(events key = None \<longrightarrow>
      unloadEvent events key (Some lg) w =
        (events, w\<lparr>trace := trace w @ [Log lg Warn (Text ''Tried to unload an event that wasn't saved!'')]\<rparr>) \<and>
      unloadEvent events key None w = (events, w)) \<and>
   (scripts (relative root (source file)) = None \<longrightarrow>
      unloadScript scripts lg' relative root file w = (Resolved, scripts, w))"
  by (simp add: unloadEvent_def unloadScript_def logged_def traced_def)

theorem unload_missing_entry_witness:
  "unloadEvent (Map.empty :: (unit, string, nat, unit) event_store) ''ready'' (Some (Pino ''event'' ''ready'')) world0 =
     (Map.empty, world0\<lparr>trace := [Log (Pino ''event'' ''ready'') Warn (Text ''Tried to unload an event that wasn't saved!'')]\<rparr>) \<and>
   unloadScript (Map.empty :: (unit, string) script_store) (Pino ''script'' ''scripts/a.js'') below_root ''/app''
     \<lparr>source = ''/app/scripts/a.js'', target = ''/app/.chooks/scripts/a.js''\<rparr> world0 =
     (Resolved, Map.empty, world0)"
  using unload_missing_entry
    [of "Map.empty :: (unit, string, nat, unit) event_store" "''ready''" "Pino ''event'' ''ready''" world0
        "Map.empty :: (unit, string) script_store" below_root "''/app''"
        "\<lparr>source = ''/app/scripts/a.js'', target = ''/app/.chooks/scripts/a.js''\<rparr>"
        "Pino ''script'' ''scripts/a.js''"]
  by (simp add: world0_def)

text \<open>
  The claim C7 as written fails for scripts: unloading a script with no stored cleanup resolves
  and leaves the world as it was, so the number of warnings logged is zero, not one.
\<close>

theorem unloadScript_missing_logs_nothing:
  "(case unloadScript Map.empty (Pino ''script'' ''scripts/a.js'') below_root ''/app''
          \<lparr>source = ''/app/scripts/a.js'', target = ''/app/.chooks/scripts/a.js''\<rparr> world0 of
      (result, store', w') \<Rightarrow>
        result = Resolved \<and> trace w' = [] \<and> count_level Warn (trace w') = 0)"
  by (simp add: unloadScript_def world0_def count_level_def)

text \<open>
  C6, as the code has it.  For a script whose relative path has a stored cleanup function,
  unloadScript calls the cleanup function once, logs two entries at error severity when it
  throws (the message, then the thrown value), resolves either way, and leaves the store as it
  was: the entry stays.
\<close>

theorem unloadScript_runs_cleanup:
  assumes "store (relative root (source file)) = Some cleanup"
  shows "unloadScript store lg relative root file w =
    (Resolved, store,
     w\<lparr>user := snd (cleanup (user w)),
       trace := trace w @ CallCleanup #
         (case fst (cleanup (user w)) of
            Inr _ \<Rightarrow> []
          | Inl error \<Rightarrow>
              [Log lg Error (Text (''Cleanup function at '' @ relative root (source file) @ '' threw an error!'')),
               Log lg Error (Object error)])\<rparr>)"
  using assms
  by (simp add: unloadScript_def Let_def logged_def traced_def split: prod.split sum.split)

theorem unloadScript_runs_cleanup_witness:
  "[''scripts/a.js'' \<mapsto> failing_cleanup]
     (below_root ''/app'' (source \<lparr>source = ''/app/scripts/a.js'', target = ''/app/.chooks/scripts/a.js''\<rparr>)) =
     Some failing_cleanup \<and>
   count_level Error (trace (snd (snd
     (unloadScript [''scripts/a.js'' \<mapsto> failing_cleanup] (Pino ''script'' ''scripts/a.js'') below_root ''/app''
        \<lparr>source = ''/app/scripts/a.js'', target = ''/app/.chooks/scripts/a.js''\<rparr> world0)))) = 2"
proof -
  have h: "[''scripts/a.js'' \<mapsto> failing_cleanup]
     (below_root ''/app'' (source \<lparr>source = ''/app/scripts/a.js'', target = ''/app/.chooks/scripts/a.js''\<rparr>)) =
     Some failing_cleanup"
    by (simp add: below_root_def)
  show ?thesis
    using h unloadScript_runs_cleanup
      [of "[''scripts/a.js'' \<mapsto> failing_cleanup]" below_root "''/app''"
          "\<lparr>source = ''/app/scripts/a.js'', target = ''/app/.chooks/scripts/a.js''\<rparr>"
          failing_cleanup "Pino ''script'' ''scripts/a.js''" world0, OF h]
    by (simp add: failing_cleanup_def world0_def count_level_def)
qed

text \<open>
  The claim C6 as written fails on the removal: after unloading a script whose cleanup throws,
  the promise has resolved and the two error entries are logged, but the entry is still in
  the store.
\<close>

theorem unloadScript_keeps_entry:
  "(case unloadScript [''scripts/a.js'' \<mapsto> failing_cleanup] (Pino ''script'' ''scripts/a.js'') below_root ''/app''
          \<lparr>source = ''/app/scripts/a.js'', target = ''/app/.chooks/scripts/a.js''\<rparr> world0 of
      (result, store', w') \<Rightarrow>
        result = Resolved \<and> store' ''scripts/a.js'' = Some failing_cleanup \<and>
        trace w' = [CallCleanup,
                    Log (Pino ''script'' ''scripts/a.js'') Error (Text ''Cleanup function at scripts/a.js threw an error!''),
                    Log (Pino ''script'' ''scripts/a.js'') Error (Object ''boom'')])"
  by (simp add: unloadScript_def Let_def logged_def traced_def world0_def below_root_def failing_cleanup_def)

section \<open>What the loaders store\<close>

lemma createKey_cmd: "createKey [''cmd'', k] = ''cmd:'' @ k"
  by (simp add: createKey_def)

lemma loadSlashCommand_entry:
  "loadSlashCommand store pino command (createKey [''cmd'', createKey [cmd_name command]]) =
     Some \<lparr>cm_execute = generic_handler (cmd_setup command) (Some (cmd_execute command)),
           cm_logger = pino ''command'' (createKey [''cmd'', createKey [cmd_name command]])\<rparr>"
  by (simp add: loadSlashCommand_def Let_def loadAutocompletes_other_keys createKey_cmd)

lemma loadUserCommand_entry:
  "loadUserCommand store pino command (createKey [''usr'', cmd_name command]) =
     Some \<lparr>cm_execute = generic_handler (cmd_setup command) (Some (cmd_execute command)),
           cm_logger = pino ''user'' (createKey [''usr'', cmd_name command])\<rparr>"
  by (simp add: loadUserCommand_def Let_def)

lemma loadMessageCommand_entry:
  "loadMessageCommand store pino command (createKey [''msg'', cmd_name command]) =
     Some \<lparr>cm_execute = generic_handler (cmd_setup command) (Some (cmd_execute command)),
           cm_logger = pino ''message'' (createKey [''msg'', cmd_name command])\<rparr>"
  by (simp add: loadMessageCommand_def Let_def)

lemma loadEvent_entry:
  assumes "loadEvent store key pino event w = (None, store', w')"
  shows "\<exists>m. store' key = Some m \<and> em_name m = ev_name event \<and>
             fn_call (em_execute m) = event_execute event (pino ''event'' (ev_name event)) \<and>
             fn_id (em_execute m) = next_fn w"
  using assms by (auto simp: loadEvent_def Let_def split: if_splits option.splits)

lemma envelopes_update:
  "envelopes store \<Longrightarrow> envelopes (store(k \<mapsto> \<lparr>cm_execute = generic_handler su ex, cm_logger = lg\<rparr>))"
  unfolding envelopes_def by (metis command_module.select_convs(1) map_upd_Some_unfold)

lemma envelopes_loadAutocompletes:
  "envelopes store \<Longrightarrow> envelopes (loadAutocompletes store pk pino options)"
proof -
  have "envelopes st \<Longrightarrow> envelopes (foldl (\<lambda>st opt.
              let key = createKey [''auto'', pk, opt_name opt]
              in st(key \<mapsto> \<lparr>cm_execute = generic_handler (opt_setup opt) (opt_autocomplete opt),
                             cm_logger = pino ''autocomplete'' key\<rparr>)) st os)" for st os
    by (induction os arbitrary: st) (simp_all add: Let_def envelopes_update)
  then show "envelopes store \<Longrightarrow> envelopes (loadAutocompletes store pk pino options)"
    unfolding loadAutocompletes_def .
qed

lemma envelopes_loadSubcommand:
  "envelopes store \<Longrightarrow> envelopes (loadSubcommand store parent pino sub)"
  by (simp add: loadSubcommand_def Let_def envelopes_loadAutocompletes envelopes_update)

lemma envelopes_loadSubcommandGroup:
  "envelopes store \<Longrightarrow> envelopes (snd (loadSubcommandGroup store parent pino grp))"
proof -
  have "envelopes st \<Longrightarrow> envelopes (foldl (\<lambda>st subcommand.
                    let parentKey = createKey [parent, opt_name grp, opt_name subcommand];
                        key = createKey [''cmd'', parentKey]
                    in loadAutocompletes
                         (st(key \<mapsto> \<lparr>cm_execute = generic_handler (opt_setup subcommand) (opt_execute subcommand),
                                        cm_logger = pino ''subcommand'' key\<rparr>))
                         parentKey pino (opt_options subcommand)) st subs)" for st subs
    by (induction subs arbitrary: st) (simp_all add: Let_def envelopes_loadAutocompletes envelopes_update)
  from this[of store] show "envelopes store \<Longrightarrow> envelopes (snd (loadSubcommandGroup store parent pino grp))"
    by (cases "opt_options grp") (simp_all add: loadSubcommandGroup_def)
qed

lemma envelopes_loaders:
  assumes "envelopes store"
  shows "envelopes (loadSlashCommand store pino slash)"
    and "envelopes (snd (loadSlashSubcommand store pino sub))"
    and "envelopes (loadUserCommand store pino command)"
    and "envelopes (loadMessageCommand store pino command)"
proof -
  show "envelopes (loadSlashCommand store pino slash)"
    using assms by (simp add: loadSlashCommand_def Let_def envelopes_loadAutocompletes envelopes_update)
  have "envelopes st \<Longrightarrow> envelopes (snd (loadSlashSubcommand_options st pino name os))" for st name os
  proof (induction os arbitrary: st)
    case Nil
    then show ?case by simp
  next
    case (Cons opt os)
    have g: "envelopes (snd (loadSubcommandGroup st name pino opt))"
      using Cons.prems by (rule envelopes_loadSubcommandGroup)
    show ?case
      using Cons.IH[of "loadSubcommand st name pino opt"] Cons.IH[of st]
        Cons.IH[of "snd (loadSubcommandGroup st name pino opt)"] g Cons.prems
      by (auto simp: envelopes_loadSubcommand split: prod.split option.split)
  qed
  with assms show "envelopes (snd (loadSlashSubcommand store pino sub))"
    by (simp add: loadSlashSubcommand_def)
  show "envelopes (loadUserCommand store pino command)"
    using assms by (simp add: loadUserCommand_def Let_def envelopes_update)
  show "envelopes (loadMessageCommand store pino command)"
    using assms by (simp add: loadMessageCommand_def Let_def envelopes_update)
qed

section \<open>The envelope of a handler\<close>

text \<open>
  C1, as the code has it.  When setup returns and the raw handler throws or rejects:
  the envelope of a command, subcommand, user, message or autocomplete handler (all built by
  generic_handler, see envelopes_loaders) rejects with what the raw handler threw and logs
  nothing itself; the envelope of an event resolves and logs, after the entry that announces
  the run, one information entry on the event's own logger and exactly two entries at error
  severity on the scoped logger (a message, then the thrown value).
\<close>

theorem raw_handler_throws:
  "((case su of None \<Rightarrow> default_setup | Some g \<Rightarrow> g) (user w) = (Inr deps, u1) \<and>
    f deps ctx u1 = (Inl e, u2) \<longrightarrow>
      generic_handler su (Some f) ctx w =
        (Rejected (User e), w\<lparr>user := u2, trace := trace w @ [CallSetup, CallExecute deps]\<rparr>)) \<and>
   ((case ev_setup event of None \<Rightarrow> default_setup | Some g \<Rightarrow> g) (user w') = (Inr deps', u1') \<and>
    ev_execute event deps' (Child lg reqId) args u1' = (Inl e', u2') \<longrightarrow>
      (case event_execute event lg reqId args w' of
         (result, w'') \<Rightarrow>
           result = Resolved \<and> user w'' = u2' \<and>
           trace w'' = trace w' @
             [CallSetup,
              Log (Child lg reqId) Info (Text (''Running handler for '' @ quoted (ev_name event) @ ''...'')),
              CallExecute deps',
              Log lg Info (Text (''Handler for '' @ quoted (ev_name event) @ '' did not run successfully.'')),
              Log (Child lg reqId) Error (Text ''An unexpected error has occured!''),
              Log (Child lg reqId) Error (Object e')] \<and>
           count_level Error (trace w'') = count_level Error (trace w') + 2))"
  by (simp add: generic_handler_def event_execute_def event_catch_def logged_def traced_def
      Let_def count_level_def)

theorem raw_handler_throws_witness:
  "generic_handler None (Some (cmd_execute throwing_command)) () world0 =
     (Rejected (User ''boom''), world0\<lparr>trace := [CallSetup, CallExecute EmptyObject]\<rparr>) \<and>
   fst (event_execute throwing_event (Pino ''event'' ''ready'') ''id-1'' () world0) = Resolved \<and>
   count_level Error (trace (snd (event_execute throwing_event (Pino ''event'' ''ready'') ''id-1'' () world0))) = 2"
  using raw_handler_throws
    [of None world0 EmptyObject "()" "cmd_execute throwing_command" "()" "''boom''" "()"
        throwing_event world0 EmptyObject "()" "Pino ''event'' ''ready''" "''id-1''" "()" "''boom''" "()"]
  by (simp add: throwing_command_def throwing_event_def world0_def default_setup_def count_level_def
      split: prod.splits)

text \<open>
  The claim C1 as written fails for commands: the handler loadSlashCommand stores for a command
  whose execute throws rejects with the thrown value, and no entry is logged.
\<close>

theorem command_handler_rejects:
  "(case loadSlashCommand Map.empty Pino throwing_command ''cmd:p'' of
      None \<Rightarrow> False
    | Some m \<Rightarrow>
        cm_execute m () world0 =
          (Rejected (User ''boom''), world0\<lparr>trace := [CallSetup, CallExecute EmptyObject]\<rparr>))"
  by (simp add: loadSlashCommand_def loadAutocompletes_def getAutocompletes_def createKey_def Let_def
      throwing_command_def generic_handler_def default_setup_def traced_def world0_def)

text \<open>
  C5, as the code has it.  When setup throws or rejects, the raw handler is not called in that
  invocation (the trace has no call of execute).  The envelope of a command, subcommand, user,
  message or autocomplete handler then rejects with what setup threw and logs nothing itself;
  the envelope of an event logs the failure (one information entry, two error entries) and
  resolves.
\<close>

theorem setup_throws:
  "(su (user w) = (Inl e, u1) \<longrightarrow>
      generic_handler (Some su) ex ctx w =
        (Rejected (User e), w\<lparr>user := u1, trace := trace w @ [CallSetup]\<rparr>)) \<and>
   (ev_setup event = Some su' \<and> su' (user w') = (Inl e', u1') \<longrightarrow>
      event_execute event lg reqId args w' =
        (Resolved,
         w'\<lparr>user := u1',
            trace := trace w' @
              [CallSetup,
               Log lg Info (Text (''Handler for '' @ quoted (ev_name event) @ '' did not run successfully.'')),
               Log (Child lg reqId) Error (Text ''An unexpected error has occured!''),
               Log (Child lg reqId) Error (Object e')]\<rparr>))"
  by (simp add: generic_handler_def event_execute_def event_catch_def logged_def traced_def Let_def)

theorem setup_throws_witness:
  "generic_handler (cmd_setup failing_setup_command) (Some (cmd_execute failing_setup_command)) () world0 =
     (Rejected (User ''no database''), world0\<lparr>trace := [CallSetup]\<rparr>) \<and>
   fst (event_execute failing_setup_event (Pino ''event'' ''ready'') ''id-1'' () world0) = Resolved \<and>
   deps_seen (trace (snd (event_execute failing_setup_event (Pino ''event'' ''ready'') ''id-1'' () world0))) = []"
  using setup_throws
    [of "\<lambda>u. (Inl ''no database'', u)" world0 "''no database''" "()" "Some (cmd_execute failing_setup_command)" "()"
        failing_setup_event "\<lambda>u. (Inl ''no database'', u)" world0 "''no database''" "()"
        "Pino ''event'' ''ready''" "''id-1''" "()"]
  by (simp add: failing_setup_command_def failing_setup_event_def world0_def deps_seen_def)

text \<open>
  The claim C5 as written fails for commands: the handler loadUserCommand stores for a command
  whose setup throws rejects with the thrown value, and no entry is logged.
\<close>

theorem setup_failure_rejects_command:
  "(case loadUserCommand Map.empty Pino failing_setup_command ''usr:who'' of
      None \<Rightarrow> False
    | Some m \<Rightarrow> cm_execute m () world0 = (Rejected (User ''no database''), world0\<lparr>trace := [CallSetup]\<rparr>))"
  by (simp add: loadUserCommand_def createKey_def Let_def
      failing_setup_command_def generic_handler_def traced_def world0_def)

section \<open>A fresh context for every invocation\<close>

lemma generic_handler_setup_calls:
  "setup_calls (trace (snd (generic_handler su ex ctx w))) = Suc (setup_calls (trace w))"
  by (simp add: generic_handler_def traced_def Let_def setup_calls_def
      split: prod.split sum.split option.split)

lemma event_execute_setup_calls:
  "setup_calls (trace (snd (event_execute event lg reqId args w))) = Suc (setup_calls (trace w))"
  by (simp add: event_execute_def event_catch_def logged_def traced_def Let_def setup_calls_def
      split: prod.split sum.split option.split)

lemma invoke_all_setup_calls:
  assumes "\<And>c w. setup_calls (trace (snd (h c w))) = Suc (setup_calls (trace w))"
  shows "setup_calls (trace (snd (invoke_all h cs w))) = setup_calls (trace w) + length cs"
proof (induction cs arbitrary: w)
  case Nil
  show ?case by simp
next
  case (Cons c cs)
  obtain r w1 where h: "h c w = (r, w1)" by (cases "h c w")
  with assms[of c w] have "setup_calls (trace w1) = Suc (setup_calls (trace w))" by simp
  with Cons.IH[of w1] h show ?case by (simp add: case_prod_unfold)
qed

lemma generic_handler_counting:
  "(case generic_handler (Some counting_setup) (Some (\<lambda>deps ctx. beside_counter (g deps ctx))) ctx w of
      (r, w') \<Rightarrow> fst (user w') = Suc (fst (user w)) \<and>
                  deps_seen (trace w') = deps_seen (trace w) @ [Deps (fst (user w))])"
  by (cases "user w")
     (simp add: generic_handler_def counting_setup_def beside_counter_def traced_def Let_def
        deps_seen_def split: prod.split sum.split)

lemma event_execute_counting:
  "(case event_execute \<lparr>ev_name = name, ev_once = once, ev_setup = Some counting_setup,
                        ev_execute = (\<lambda>deps lg args. beside_counter (g deps lg args))\<rparr>
           root reqId args w of
      (r, w') \<Rightarrow> fst (user w') = Suc (fst (user w)) \<and>
                  deps_seen (trace w') = deps_seen (trace w) @ [Deps (fst (user w))])"
  by (cases "user w")
     (simp add: event_execute_def event_catch_def logged_def counting_setup_def beside_counter_def
        traced_def Let_def deps_seen_def split: prod.split sum.split)

lemma invoke_all_counting:
  assumes "\<And>c w. (case h c w of
      (r, w') \<Rightarrow> fst (user w') = Suc (fst (user w)) \<and>
                  deps_seen (trace w') = deps_seen (trace w) @ [Deps (fst (user w))])"
  shows "fst (user (snd (invoke_all h cs w))) = fst (user w) + length cs \<and>
         deps_seen (trace (snd (invoke_all h cs w))) =
           deps_seen (trace w) @ map Deps [fst (user w) ..< fst (user w) + length cs]"
proof (induction cs arbitrary: w)
  case Nil
  show ?case by simp
next
  case (Cons c cs)
  obtain r w1 where h: "h c w = (r, w1)" by (cases "h c w")
  with assms[where c = c and w = w] have 1: "fst (user w1) = Suc (fst (user w))"
    and 2: "deps_seen (trace w1) = deps_seen (trace w) @ [Deps (fst (user w))]" by simp_all
  have 3: "[fst (user w) ..< fst (user w) + Suc (length cs)] =
           fst (user w) # [Suc (fst (user w)) ..< Suc (fst (user w)) + length cs]"
    using upt_conv_Cons[of "fst (user w)" "fst (user w) + Suc (length cs)"]
    by (simp del: upt_Suc)
  from Cons.IH[of w1] h 1 2 3 show ?case by (simp add: case_prod_unfold del: upt_Suc)
qed

text \<open>
  C4.  Every invocation of a compiled handler calls setup anew before the raw handler runs:
  n invocations of a command envelope, and of an event listener, make n calls of setup; the
  receiver handed to the raw handler in an invocation is the value setup returned in that same
  invocation; and with a factory that returns a strictly incrementing counter the n
  invocations hand the raw handler n values that are pairwise distinct.
\<close>

theorem setup_called_on_every_invocation:
  "setup_calls (trace (snd (invoke_all (generic_handler su ex) ctxs w))) =
     setup_calls (trace w) + length ctxs \<and>
   setup_calls (trace (snd (invoke_all (\<lambda>(reqId, args). event_execute event lg reqId args) calls w))) =
     setup_calls (trace w) + length calls \<and>
   (su' (user w) = (Inr d, u1) \<longrightarrow>
      deps_seen (trace (snd (generic_handler (Some su') (Some f) ctx w))) = deps_seen (trace w) @ [d]) \<and>
   (ev_setup event = Some su' \<and> su' (user w) = (Inr d, u1) \<longrightarrow>
      deps_seen (trace (snd (event_execute event lg reqId args w))) = deps_seen (trace w) @ [d]) \<and>
   (let made = map Deps [fst (user wc) ..< fst (user wc) + length ctxs]
    in deps_seen (trace (snd (invoke_all
         (generic_handler (Some counting_setup) (Some (\<lambda>deps ctx. beside_counter (g deps ctx)))) ctxs wc))) =
         deps_seen (trace wc) @ made \<and>
       length made = length ctxs \<and> distinct made) \<and>
   (let made = map Deps [fst (user wc) ..< fst (user wc) + length calls]
    in deps_seen (trace (snd (invoke_all
         (\<lambda>(reqId, args).
            event_execute \<lparr>ev_name = name, ev_once = once, ev_setup = Some counting_setup,
                           ev_execute = (\<lambda>deps lg args. beside_counter (g' deps lg args))\<rparr>
              lg reqId args) calls wc))) =
         deps_seen (trace wc) @ made \<and>
       length made = length calls \<and> distinct made)"
proof -
  have a: "setup_calls (trace (snd (invoke_all (generic_handler su ex) ctxs w))) =
     setup_calls (trace w) + length ctxs"
    by (rule invoke_all_setup_calls) (rule generic_handler_setup_calls)
  have b: "setup_calls (trace (snd (invoke_all (\<lambda>(reqId, args). event_execute event lg reqId args) calls w))) =
     setup_calls (trace w) + length calls"
    by (rule invoke_all_setup_calls) (simp add: event_execute_setup_calls split: prod.split)
  have c: "su' (user w) = (Inr d, u1) \<longrightarrow>
      deps_seen (trace (snd (generic_handler (Some su') (Some f) ctx w))) = deps_seen (trace w) @ [d]"
    by (simp add: generic_handler_def traced_def Let_def deps_seen_def split: prod.split sum.split)
  have d: "ev_setup event = Some su' \<and> su' (user w) = (Inr d, u1) \<longrightarrow>
      deps_seen (trace (snd (event_execute event lg reqId args w))) = deps_seen (trace w) @ [d]"
    by (simp add: event_execute_def event_catch_def logged_def traced_def Let_def deps_seen_def
        split: prod.split sum.split)
  have inj: "distinct (map Deps xs)" if "distinct xs" for xs :: "nat list"
    using that by (simp add: distinct_map inj_on_def)
  have e: "deps_seen (trace (snd (invoke_all
         (generic_handler (Some counting_setup) (Some (\<lambda>deps ctx. beside_counter (g deps ctx)))) ctxs wc))) =
         deps_seen (trace wc) @ map Deps [fst (user wc) ..< fst (user wc) + length ctxs]"
    using invoke_all_counting[where h = "generic_handler (Some counting_setup)
        (Some (\<lambda>deps ctx. beside_counter (g deps ctx)))", OF generic_handler_counting]
    by simp
  have f: "deps_seen (trace (snd (invoke_all
         (\<lambda>(reqId, args).
            event_execute \<lparr>ev_name = name, ev_once = once, ev_setup = Some counting_setup,
                           ev_execute = (\<lambda>deps lg args. beside_counter (g' deps lg args))\<rparr>
              lg reqId args) calls wc))) =
         deps_seen (trace wc) @ map Deps [fst (user wc) ..< fst (user wc) + length calls]"
  proof -
    let ?h = "\<lambda>(reqId, args).
            event_execute \<lparr>ev_name = name, ev_once = once, ev_setup = Some counting_setup,
                           ev_execute = (\<lambda>deps lg args. beside_counter (g' deps lg args))\<rparr>
              lg reqId args"
    have "(case ?h c w of
      (r, w') \<Rightarrow> fst (user w') = Suc (fst (user w)) \<and>
                  deps_seen (trace w') = deps_seen (trace w) @ [Deps (fst (user w))])" for c w
      using event_execute_counting[where name = name and once = once and g = g' and root = lg
          and reqId = "fst c" and args = "snd c" and w = w]
      by (simp add: case_prod_unfold)
    from invoke_all_counting[where h = ?h, OF this] show ?thesis by simp
  qed
  show ?thesis
    unfolding Let_def using a b c d e f by (simp add: inj)
qed

theorem setup_called_on_every_invocation_witness:
  "(counting_setup :: (nat \<times> unit, string, nat) setup_fn) (user counter_world) = (Inr (Deps 0), (1, ())) \<and>
   setup_calls (trace (snd (invoke_all
      (generic_handler (Some counting_setup) (Some (\<lambda>deps ctx. beside_counter (\<lambda>v. (Inl ''boom'', v)))))
      [(), (), ()] counter_world))) = 3 \<and>
   deps_seen (trace (snd (invoke_all
      (generic_handler (Some counting_setup) (Some (\<lambda>deps ctx. beside_counter (\<lambda>v. (Inl ''boom'', v)))))
      [(), (), ()] counter_world))) = [Deps 0, Deps 1, Deps 2] \<and>
   deps_seen (trace (snd (event_execute
      \<lparr>ev_name = ''ready'', ev_once = False, ev_setup = Some counting_setup,
        ev_execute = (\<lambda>deps lg args. beside_counter (\<lambda>v. (Inr (), v)))\<rparr>
      (Pino ''event'' ''ready'') ''id-1'' () counter_world))) = [Deps 0]"
proof -
  have h: "(counting_setup :: (nat \<times> unit, string, nat) setup_fn) (user counter_world) = (Inr (Deps 0), (1, ()))"
    by (simp add: counting_setup_def counter_world_def)
  have u: "fst (user counter_world) = 0" "trace counter_world = []"
    by (simp_all add: counter_world_def)
  have z: "setup_calls (trace counter_world) = 0" "deps_seen (trace counter_world) = []"
    by (simp_all add: counter_world_def setup_calls_def deps_seen_def)
  note t = setup_called_on_every_invocation
    [where su = "Some counting_setup"
       and ex = "Some (\<lambda>deps ctx. beside_counter (\<lambda>v. (Inl ''boom'', v)))"
       and ctxs = "[(), (), ()]" and w = counter_world and wc = counter_world
       and g = "\<lambda>deps ctx v. (Inl ''boom'', v)"
       and su' = counting_setup and d = "Deps 0" and ?u1.0 = "(1, ())"
       and event = "\<lparr>ev_name = ''ready'', ev_once = False, ev_setup = Some counting_setup,
                       ev_execute = (\<lambda>deps lg args. beside_counter (\<lambda>v. (Inr (), v)))\<rparr>"
       and lg = "Pino ''event'' ''ready''" and reqId = "''id-1''" and args = "()"
       and calls = "[]" and f = "\<lambda>deps ctx. beside_counter (\<lambda>v. (Inl ''boom'', v))" and ctx = "()"
       and name = "''ready''" and once = False and g' = "\<lambda>deps lg args v. (Inr (), v)"]
  from h u z t show ?thesis
    by (simp add: Let_def numeral_2_eq_2 numeral_3_eq_3 del: invoke_all.simps)
qed

section \<open>Reloading an event\<close>

text \<open>
  When the key is the event's name, a second loadEvent detaches the listener the first one
  attached and attaches its own: one listener of the two is left on the event source.
\<close>

lemma loadEvent_reload_by_name:
  assumes "store (ev_name a) = None" and "ev_name b = ev_name a"
  shows "(case loadEvent store (ev_name a) pino a w of
            (thrown1, store1, w1) \<Rightarrow>
              thrown1 = None \<and>
              listeners w1 = listeners w @ [(ev_name a, next_fn w, ev_once a)] \<and>
              (case loadEvent store1 (ev_name a) pino b w1 of
                 (thrown2, store2, w2) \<Rightarrow>
                   thrown2 = None \<and>
                   listeners w2 = listeners w @ [(ev_name a, Suc (next_fn w), ev_once b)]))"
  using assms
  by (simp add: loadEvent_def Let_def client_on_def client_once_def client_off_def traced_def)

text \<open>
  C2 does not hold for every key.  loadEvent tests the store at the key but reads the old entry
  at the event's name, and detaches under the key instead of the name.  Loading the event
  ready twice under the key events/ready.js: the second call throws a TypeError, the listener
  of the first call stays attached and stays in the store, and the new one is never attached.
  With an entry for ready in the store already, both calls return normally, off is called for
  the event events/ready.js with the function of that other entry, and three listeners for
  ready are attached in the end.
\<close>

theorem loadEvent_twice_under_other_key:
  "(case loadEvent Map.empty ''events/ready.js'' Pino ready_event world0 of
      (thrown1, store1, w1) \<Rightarrow>
        thrown1 = None \<and> listeners w1 = [(''ready'', 0, False)] \<and>
        (case loadEvent store1 ''events/ready.js'' Pino ready_event w1 of
           (thrown2, store2, w2) \<Rightarrow>
             thrown2 = Some TypeError \<and>
             listeners w2 = [(''ready'', 0, False)] \<and>
             trace w2 = [CallOn ''ready'' 0] \<and>
             map_option (\<lambda>m. fn_id (em_execute m)) (store2 ''events/ready.js'') = Some 0)) \<and>
   (case loadEvent [''ready'' \<mapsto> ready_module] ''events/ready.js'' Pino ready_event listening0 of
      (thrown1, store1, w1) \<Rightarrow>
        thrown1 = None \<and>
        (case loadEvent store1 ''events/ready.js'' Pino ready_event w1 of
           (thrown2, store2, w2) \<Rightarrow>
             thrown2 = None \<and>
             listeners w2 = [(''ready'', 0, False), (''ready'', 1, False), (''ready'', 2, False)] \<and>
             trace w2 = [CallOn ''ready'' 1, CallOff ''events/ready.js'' 0, CallOn ''ready'' 2]))"
  by (simp add: loadEvent_def Let_def client_on_def client_once_def client_off_def traced_def
      ready_event_def ready_module_def world0_def listening0_def)

end
